theory Spec2Isabelle
  imports Main "HOL-Library.Word"
begin

section \<open>The SQLite bridge of the Phasor plugin (sqlite-phs.cpp)\<close>

text \<open>
  The plugin keeps three process-wide tables (connections, prepared statements, strings),
  each with its own \<^verbatim>\<open>int\<close> counter, and exposes eight functions to the host. Every
  function takes the host's argument array and returns a tagged value. The model threads
  the globals through each function as an explicit state; the calls into the SQLite library
  are recorded in a call log that is part of that state, and the library's answers are a
  parameter of the model.
\<close>

subsection \<open>Machine types\<close>

text \<open>
  \<^verbatim>\<open>int\<close> is a 32-bit word and \<^verbatim>\<open>int64_t\<close> a 64-bit word; both are read as two's
  complement by \<open>sint\<close>. The conversion \<^verbatim>\<open>(int)x\<close> of a 64-bit value keeps the low
  32 bits; passing an \<^verbatim>\<open>int\<close> where an \<^verbatim>\<open>int64_t\<close> is expected sign-extends it.
  \<^verbatim>\<open>x++\<close> on an \<^verbatim>\<open>int\<close> is addition on the 32-bit word. At \<^verbatim>\<open>INT_MAX\<close> the
  C++ standard leaves the increment undefined; the model takes what the two's-complement
  machine does there, which is to wrap around to \<^verbatim>\<open>INT_MIN\<close>.
  A \<^verbatim>\<open>double\<close> is carried as its 64-bit pattern: the bridge never computes with it.
  A native pointer is an address, \<open>0\<close> being \<^verbatim>\<open>nullptr\<close>. A \<^verbatim>\<open>const char*\<close> is
  \<open>None\<close> for the null pointer and \<open>Some s\<close> for the bytes \<open>s\<close> before the
  terminating NUL.
\<close>

type_synonym c_int = "32 word"
type_synonym int64_t = "64 word"
type_synonym double = "64 word"
type_synonym ptr = nat
type_synonym c_str = "string option"

definition nullptr :: ptr where
  "nullptr = 0"

definition to_c_int :: "int64_t \<Rightarrow> c_int" where
  "to_c_int x = ucast x"

definition to_int64 :: "c_int \<Rightarrow> int64_t" where
  "to_int64 x = scast x"

subsection \<open>PhasorFFI.hpp: tagged values\<close>

datatype PhasorValueType =
    PHASOR_TYPE_NULL
  | PHASOR_TYPE_BOOL
  | PHASOR_TYPE_INT
  | PHASOR_TYPE_FLOAT
  | PHASOR_TYPE_STRING
  | PHASOR_TYPE_ARRAY

text \<open>
  The struct \<^verbatim>\<open>PhasorValue\<close> is a tag and a union; only the member that the tag names
  is meaningful, so the model is a datatype with one constructor for each tag.
\<close>

datatype PhasorValue =
    PNull
  | PBool bool
  | PInt int64_t
  | PFloat double
  | PString c_str
  | PArray "PhasorValue list"

fun phasor_type :: "PhasorValue \<Rightarrow> PhasorValueType" where
  "phasor_type PNull = PHASOR_TYPE_NULL"
| "phasor_type (PBool b) = PHASOR_TYPE_BOOL"
| "phasor_type (PInt i) = PHASOR_TYPE_INT"
| "phasor_type (PFloat f) = PHASOR_TYPE_FLOAT"
| "phasor_type (PString s) = PHASOR_TYPE_STRING"
| "phasor_type (PArray a) = PHASOR_TYPE_ARRAY"

definition phasor_make_null :: PhasorValue where
  "phasor_make_null = PNull"

definition phasor_make_bool :: "bool \<Rightarrow> PhasorValue" where
  "phasor_make_bool b = PBool b"

definition phasor_make_int :: "int64_t \<Rightarrow> PhasorValue" where
  "phasor_make_int i = PInt i"

definition phasor_make_float :: "double \<Rightarrow> PhasorValue" where
  "phasor_make_float f = PFloat f"

definition phasor_make_string :: "c_str \<Rightarrow> PhasorValue" where
  "phasor_make_string s = PString s"

definition phasor_is_int :: "PhasorValue \<Rightarrow> bool" where
  "phasor_is_int val = (phasor_type val = PHASOR_TYPE_INT)"

definition phasor_is_string :: "PhasorValue \<Rightarrow> bool" where
  "phasor_is_string val = (phasor_type val = PHASOR_TYPE_STRING)"

text \<open>
  \<^verbatim>\<open>phasor_to_int\<close> and \<^verbatim>\<open>phasor_to_string\<close> read a union member without looking
  at the tag. The bridge calls them only behind the matching \<^verbatim>\<open>phasor_is_*\<close> test; the
  value given here for the other tags is never used.
\<close>

fun phasor_to_int :: "PhasorValue \<Rightarrow> int64_t" where
  "phasor_to_int (PInt i) = i"
| "phasor_to_int v = 0"

fun phasor_to_string :: "PhasorValue \<Rightarrow> c_str" where
  "phasor_to_string (PString s) = s"
| "phasor_to_string v = None"

subsection \<open>The SQLite library as a parameter\<close>

text \<open>
  The header \<^verbatim>\<open>sqlite/sqlite3.h\<close> and the library behind it are not part of the
  sources. The constants below are the ones of the SQLite C interface.
\<close>

definition SQLITE_OK :: c_int where "SQLITE_OK = 0"
definition SQLITE_ROW :: c_int where "SQLITE_ROW = 100"
definition SQLITE_DONE :: c_int where "SQLITE_DONE = 101"
definition SQLITE_INTEGER :: c_int where "SQLITE_INTEGER = 1"
definition SQLITE_FLOAT :: c_int where "SQLITE_FLOAT = 2"
definition SQLITE_TEXT :: c_int where "SQLITE_TEXT = 3"
definition SQLITE_BLOB :: c_int where "SQLITE_BLOB = 4"
definition SQLITE_NULL :: c_int where "SQLITE_NULL = 5"

text \<open>Every call that the bridge makes into the library, with its arguments.\<close>

datatype native_call =
    Sqlite3_open c_str
  | Sqlite3_close ptr
  | Sqlite3_exec ptr c_str
  | Sqlite3_free ptr
  | Sqlite3_prepare_v2 ptr c_str
  | Sqlite3_step ptr
  | Sqlite3_column_count ptr
  | Sqlite3_column_type ptr c_int
  | Sqlite3_column_int ptr c_int
  | Sqlite3_column_double ptr c_int
  | Sqlite3_column_text ptr c_int
  | Sqlite3_finalize ptr

text \<open>
  The library's answers. Each answer may depend on every call made before it (the first
  argument), so an engine can be as stateful as the real one. \<open>open_result\<close>,
  \<open>exec_result\<close> and \<open>prepare_result\<close> give the return code and the value written
  through the out parameter. \<open>column_int64_value\<close> is the 64-bit integer that the
  engine holds for a column, \<open>column_text_value\<close> the bytes of its text before the
  terminating NUL (for a column that the library reports as text the pointer is not null,
  except when the library is out of memory, which is outside the model).
\<close>

record engine =
  open_result :: "native_call list \<Rightarrow> c_str \<Rightarrow> c_int \<times> ptr"
  exec_result :: "native_call list \<Rightarrow> ptr \<Rightarrow> c_str \<Rightarrow> c_int \<times> ptr"
  prepare_result :: "native_call list \<Rightarrow> ptr \<Rightarrow> c_str \<Rightarrow> c_int \<times> ptr"
  step_result :: "native_call list \<Rightarrow> ptr \<Rightarrow> c_int"
  column_count_result :: "native_call list \<Rightarrow> ptr \<Rightarrow> c_int"
  column_type_result :: "native_call list \<Rightarrow> ptr \<Rightarrow> c_int \<Rightarrow> c_int"
  column_int64_value :: "native_call list \<Rightarrow> ptr \<Rightarrow> c_int \<Rightarrow> int64_t"
  column_double_value :: "native_call list \<Rightarrow> ptr \<Rightarrow> c_int \<Rightarrow> double"
  column_text_value :: "native_call list \<Rightarrow> ptr \<Rightarrow> c_int \<Rightarrow> string"

subsection \<open>The globals of sqlite-phs.cpp\<close>

text \<open>
  The three tables and the three counters, and with them the log of the calls made into
  the library so far. The three mutexes are not modelled: the calls of the bridge are taken
  one at a time.
\<close>

record state =
  db_table :: "c_int \<rightharpoonup> ptr"
  stmt_table :: "c_int \<rightharpoonup> ptr"
  string_table :: "c_int \<rightharpoonup> string"
  next_db_handle :: c_int
  next_stmt_handle :: c_int
  next_string_handle :: c_int
  native_calls :: "native_call list"

definition initial_state :: state where
  "initial_state =
     \<lparr>db_table = Map.empty, stmt_table = Map.empty, string_table = Map.empty,
      next_db_handle = 1, next_stmt_handle = 1, next_string_handle = 1,
      native_calls = []\<rparr>"

definition log_call :: "native_call \<Rightarrow> state \<Rightarrow> state" where
  "log_call c st = st\<lparr>native_calls := native_calls st @ [c]\<rparr>"

subsection \<open>The library functions that the bridge calls\<close>

definition sqlite3_open :: "engine \<Rightarrow> c_str \<Rightarrow> state \<Rightarrow> (c_int \<times> ptr) \<times> state" where
  "sqlite3_open eng filename st =
     (open_result eng (native_calls st) filename, log_call (Sqlite3_open filename) st)"

definition sqlite3_close :: "engine \<Rightarrow> ptr \<Rightarrow> state \<Rightarrow> state" where
  "sqlite3_close eng db st = log_call (Sqlite3_close db) st"

definition sqlite3_exec :: "engine \<Rightarrow> ptr \<Rightarrow> c_str \<Rightarrow> state \<Rightarrow> (c_int \<times> ptr) \<times> state" where
  "sqlite3_exec eng db sql st =
     (exec_result eng (native_calls st) db sql, log_call (Sqlite3_exec db sql) st)"

definition sqlite3_free :: "engine \<Rightarrow> ptr \<Rightarrow> state \<Rightarrow> state" where
  "sqlite3_free eng p st = log_call (Sqlite3_free p) st"

definition sqlite3_prepare_v2 :: "engine \<Rightarrow> ptr \<Rightarrow> c_str \<Rightarrow> state \<Rightarrow> (c_int \<times> ptr) \<times> state" where
  "sqlite3_prepare_v2 eng db sql st =
     (prepare_result eng (native_calls st) db sql, log_call (Sqlite3_prepare_v2 db sql) st)"

definition sqlite3_step :: "engine \<Rightarrow> ptr \<Rightarrow> state \<Rightarrow> c_int \<times> state" where
  "sqlite3_step eng stmt st =
     (step_result eng (native_calls st) stmt, log_call (Sqlite3_step stmt) st)"

definition sqlite3_column_count :: "engine \<Rightarrow> ptr \<Rightarrow> state \<Rightarrow> c_int \<times> state" where
  "sqlite3_column_count eng stmt st =
     (column_count_result eng (native_calls st) stmt, log_call (Sqlite3_column_count stmt) st)"

definition sqlite3_column_type :: "engine \<Rightarrow> ptr \<Rightarrow> c_int \<Rightarrow> state \<Rightarrow> c_int \<times> state" where
  "sqlite3_column_type eng stmt i st =
     (column_type_result eng (native_calls st) stmt i, log_call (Sqlite3_column_type stmt i) st)"

text \<open>
  \<^verbatim>\<open>int sqlite3_column_int(sqlite3_stmt*, int)\<close> returns an \<^verbatim>\<open>int\<close>: the low 32 bits
  of the column's 64-bit integer (the 64-bit accessor of the library is
  \<^verbatim>\<open>sqlite3_column_int64\<close>, which the bridge does not call).
\<close>

definition sqlite3_column_int :: "engine \<Rightarrow> ptr \<Rightarrow> c_int \<Rightarrow> state \<Rightarrow> c_int \<times> state" where
  "sqlite3_column_int eng stmt i st =
     (to_c_int (column_int64_value eng (native_calls st) stmt i),
      log_call (Sqlite3_column_int stmt i) st)"

definition sqlite3_column_double :: "engine \<Rightarrow> ptr \<Rightarrow> c_int \<Rightarrow> state \<Rightarrow> double \<times> state" where
  "sqlite3_column_double eng stmt i st =
     (column_double_value eng (native_calls st) stmt i,
      log_call (Sqlite3_column_double stmt i) st)"

definition sqlite3_column_text :: "engine \<Rightarrow> ptr \<Rightarrow> c_int \<Rightarrow> state \<Rightarrow> string \<times> state" where
  "sqlite3_column_text eng stmt i st =
     (column_text_value eng (native_calls st) stmt i,
      log_call (Sqlite3_column_text stmt i) st)"

definition sqlite3_finalize :: "engine \<Rightarrow> ptr \<Rightarrow> state \<Rightarrow> state" where
  "sqlite3_finalize eng stmt st = log_call (Sqlite3_finalize stmt) st"

subsection \<open>The handle registry\<close>

text \<open>A lookup that finds nothing gives \<^verbatim>\<open>nullptr\<close>, as does an entry that holds it.\<close>

definition get_db :: "c_int \<Rightarrow> state \<Rightarrow> ptr" where
  "get_db handle st = (case db_table st handle of Some p \<Rightarrow> p | None \<Rightarrow> nullptr)"

definition get_stmt :: "c_int \<Rightarrow> state \<Rightarrow> ptr" where
  "get_stmt handle st = (case stmt_table st handle of Some p \<Rightarrow> p | None \<Rightarrow> nullptr)"

definition store_string :: "string \<Rightarrow> state \<Rightarrow> c_int \<times> state" where
  "store_string s st =
     (let handle = next_string_handle st
      in (handle, st\<lparr>next_string_handle := handle + 1,
                     string_table := (string_table st)(handle \<mapsto> s)\<rparr>))"

definition get_string :: "c_int \<Rightarrow> state \<Rightarrow> c_str" where
  "get_string handle st = string_table st handle"

definition free_string :: "c_int \<Rightarrow> state \<Rightarrow> state" where
  "free_string handle st = st\<lparr>string_table := (string_table st)(handle := None)\<rparr>"

subsection \<open>The bridge operations\<close>

text \<open>
  \<^verbatim>\<open>argc\<close> is the length of the argument list. The tests on the arguments are
  evaluated left to right and stop at the first that holds, so \<open>argv ! i\<close> is only read
  when \<open>i < argc\<close>.
\<close>

definition sqlite_open :: "engine \<Rightarrow> PhasorValue list \<Rightarrow> state \<Rightarrow> PhasorValue \<times> state" where
  "sqlite_open eng argv st =
     (if length argv \<noteq> 1 \<or> \<not> phasor_is_string (argv ! 0) then (phasor_make_null, st)
      else
        let filename = phasor_to_string (argv ! 0);
            ((rc, db), st1) = sqlite3_open eng filename st
        in if rc \<noteq> SQLITE_OK then (phasor_make_null, sqlite3_close eng db st1)
           else
             let handle = next_db_handle st1;
                 st2 = st1\<lparr>next_db_handle := handle + 1\<rparr>;
                 st3 = st2\<lparr>db_table := (db_table st2)(handle \<mapsto> db)\<rparr>
             in (phasor_make_int (to_int64 handle), st3))"

definition sqlite_close :: "engine \<Rightarrow> PhasorValue list \<Rightarrow> state \<Rightarrow> PhasorValue \<times> state" where
  "sqlite_close eng argv st =
     (if length argv \<noteq> 1 \<or> \<not> phasor_is_int (argv ! 0) then (phasor_make_bool False, st)
      else
        let handle = to_c_int (phasor_to_int (argv ! 0));
            (db, st1) = (case db_table st handle of
                           Some p \<Rightarrow> (p, st\<lparr>db_table := (db_table st)(handle := None)\<rparr>)
                         | None \<Rightarrow> (nullptr, st))
        in if db \<noteq> nullptr then (phasor_make_bool True, sqlite3_close eng db st1)
           else (phasor_make_bool False, st1))"

definition sqlite_exec :: "engine \<Rightarrow> PhasorValue list \<Rightarrow> state \<Rightarrow> PhasorValue \<times> state" where
  "sqlite_exec eng argv st =
     (if length argv \<noteq> 2 \<or> \<not> phasor_is_int (argv ! 0) \<or> \<not> phasor_is_string (argv ! 1)
      then (phasor_make_bool False, st)
      else
        let handle = to_c_int (phasor_to_int (argv ! 0));
            sql = phasor_to_string (argv ! 1);
            db = get_db handle st
        in if db = nullptr then (phasor_make_bool False, st)
           else
             let ((rc, err), st1) = sqlite3_exec eng db sql st
             in if rc \<noteq> SQLITE_OK
                then (phasor_make_bool False,
                      if err \<noteq> nullptr then sqlite3_free eng err st1 else st1)
                else (phasor_make_bool True, st1))"

definition sqlite_prepare :: "engine \<Rightarrow> PhasorValue list \<Rightarrow> state \<Rightarrow> PhasorValue \<times> state" where
  "sqlite_prepare eng argv st =
     (if length argv \<noteq> 2 \<or> \<not> phasor_is_int (argv ! 0) \<or> \<not> phasor_is_string (argv ! 1)
      then (phasor_make_null, st)
      else
        let db_handle = to_c_int (phasor_to_int (argv ! 0));
            sql = phasor_to_string (argv ! 1);
            db = get_db db_handle st
        in if db = nullptr then (phasor_make_null, st)
           else
             let ((rc, stmt), st1) = sqlite3_prepare_v2 eng db sql st
             in if rc \<noteq> SQLITE_OK then (phasor_make_null, st1)
                else
                  let handle = next_stmt_handle st1;
                      st2 = st1\<lparr>next_stmt_handle := handle + 1\<rparr>;
                      st3 = st2\<lparr>stmt_table := (stmt_table st2)(handle \<mapsto> stmt)\<rparr>
                  in (phasor_make_int (to_int64 handle), st3))"

definition sqlite_step :: "engine \<Rightarrow> PhasorValue list \<Rightarrow> state \<Rightarrow> PhasorValue \<times> state" where
  "sqlite_step eng argv st =
     (if length argv \<noteq> 1 \<or> \<not> phasor_is_int (argv ! 0) then (phasor_make_null, st)
      else
        let handle = to_c_int (phasor_to_int (argv ! 0));
            stmt = get_stmt handle st
        in if stmt = nullptr then (phasor_make_null, st)
           else
             let (rc, st1) = sqlite3_step eng stmt st
             in if rc = SQLITE_ROW then (phasor_make_bool True, st1)
                else if rc = SQLITE_DONE then (phasor_make_bool False, st1)
                else (phasor_make_null, st1))"

definition sqlite_column :: "engine \<Rightarrow> PhasorValue list \<Rightarrow> state \<Rightarrow> PhasorValue \<times> state" where
  "sqlite_column eng argv st =
     (if length argv \<noteq> 2 \<or> \<not> phasor_is_int (argv ! 0) \<or> \<not> phasor_is_int (argv ! 1)
      then (phasor_make_null, st)
      else
        let stmt_handle = to_c_int (phasor_to_int (argv ! 0));
            col_index = to_c_int (phasor_to_int (argv ! 1));
            stmt = get_stmt stmt_handle st
        in if stmt = nullptr then (phasor_make_null, st)
           else
             let (count, st1) = sqlite3_column_count eng stmt st
             in if sint col_index < 0 \<or> sint col_index \<ge> sint count
                then (phasor_make_null, st1)
                else
                  let (type, st2) = sqlite3_column_type eng stmt col_index st1
                  in if type = SQLITE_INTEGER then
                       (let (i, st3) = sqlite3_column_int eng stmt col_index st2
                        in (phasor_make_int (to_int64 i), st3))
                     else if type = SQLITE_FLOAT then
                       (let (f, st3) = sqlite3_column_double eng stmt col_index st2
                        in (phasor_make_float f, st3))
                     else if type = SQLITE_TEXT then
                       (let (s, st3) = sqlite3_column_text eng stmt col_index st2;
                            (str_handle, st4) = store_string s st3
                        in (phasor_make_string (get_string str_handle st4), st4))
                     else if type = SQLITE_NULL then (phasor_make_null, st2)
                     else (phasor_make_null, st2))"

definition sqlite_finalize :: "engine \<Rightarrow> PhasorValue list \<Rightarrow> state \<Rightarrow> PhasorValue \<times> state" where
  "sqlite_finalize eng argv st =
     (if length argv \<noteq> 1 \<or> \<not> phasor_is_int (argv ! 0) then (phasor_make_bool False, st)
      else
        let handle = to_c_int (phasor_to_int (argv ! 0));
            (stmt, st1) = (case stmt_table st handle of
                             Some p \<Rightarrow> (p, st\<lparr>stmt_table := (stmt_table st)(handle := None)\<rparr>)
                           | None \<Rightarrow> (nullptr, st))
        in if stmt \<noteq> nullptr
           then (phasor_make_bool True, sqlite3_finalize eng stmt st1)
           else (phasor_make_bool False, st1))"

definition sqlite_free_string :: "engine \<Rightarrow> PhasorValue list \<Rightarrow> state \<Rightarrow> PhasorValue \<times> state" where
  "sqlite_free_string eng argv st =
     (if length argv \<noteq> 1 \<or> \<not> phasor_is_int (argv ! 0) then (phasor_make_null, st)
      else
        let handle = to_c_int (phasor_to_int (argv ! 0))
        in (phasor_make_null, free_string handle st))"

subsection \<open>The registered surface\<close>

text \<open>
  \<^verbatim>\<open>phasor_plugin_entry\<close> registers the eight functions under their names, in this
  order. \<open>bridge\<close> is the function behind each registration.
\<close>

datatype bridge_op =
    Op_open | Op_close | Op_exec | Op_prepare | Op_step | Op_column | Op_finalize
  | Op_free_string

definition phasor_plugin_entry :: "(string \<times> bridge_op) list" where
  "phasor_plugin_entry =
     [(''sqlite_open'', Op_open), (''sqlite_close'', Op_close), (''sqlite_exec'', Op_exec),
      (''sqlite_prepare'', Op_prepare), (''sqlite_step'', Op_step),
      (''sqlite_column'', Op_column), (''sqlite_finalize'', Op_finalize),
      (''sqlite_free_string'', Op_free_string)]"

fun bridge :: "bridge_op \<Rightarrow> engine \<Rightarrow> PhasorValue list \<Rightarrow> state \<Rightarrow> PhasorValue \<times> state" where
  "bridge Op_open = sqlite_open"
| "bridge Op_close = sqlite_close"
| "bridge Op_exec = sqlite_exec"
| "bridge Op_prepare = sqlite_prepare"
| "bridge Op_step = sqlite_step"
| "bridge Op_column = sqlite_column"
| "bridge Op_finalize = sqlite_finalize"
| "bridge Op_free_string = sqlite_free_string"

subsection \<open>Calling the bridge repeatedly\<close>

text \<open>
  The host calls registered functions one after the other on the same globals. \<open>run\<close>
  gives the results of a list of calls, in order, and the state after the last.
\<close>

type_synonym bridge_call = "bridge_op \<times> PhasorValue list"

fun run :: "engine \<Rightarrow> bridge_call list \<Rightarrow> state \<Rightarrow> PhasorValue list \<times> state" where
  "run eng [] st = ([], st)"
| "run eng (c # cs) st =
     (let (r, st1) = bridge (fst c) eng (snd c) st;
          (rs, st2) = run eng cs st1
      in (r # rs, st2))"

subsection \<open>The three handle spaces\<close>

datatype space = Connections | Statements | Strings

fun counter :: "space \<Rightarrow> state \<Rightarrow> c_int" where
  "counter Connections st = next_db_handle st"
| "counter Statements st = next_stmt_handle st"
| "counter Strings st = next_string_handle st"

fun live :: "space \<Rightarrow> state \<Rightarrow> c_int set" where
  "live Connections st = dom (db_table st)"
| "live Statements st = dom (stmt_table st)"
| "live Strings st = dom (string_table st)"

text \<open>
  Every allocation in the source has the form
  \<^verbatim>\<open>int handle = next_X_handle++; X_table[handle] = ...\<close>: it hands out the value of the
  counter and moves the counter on. So a call allocated in a space exactly when it changed
  that space's counter, and the handle it allocated is the counter's value before the call.
  \<open>allocated\<close> lists the handles that a list of calls allocates in a space, in order.
\<close>

definition allocation :: "space \<Rightarrow> state \<Rightarrow> state \<Rightarrow> c_int list" where
  "allocation sp st st' = (if counter sp st' = counter sp st then [] else [counter sp st])"

fun allocated :: "space \<Rightarrow> engine \<Rightarrow> bridge_call list \<Rightarrow> state \<Rightarrow> c_int list" where
  "allocated sp eng [] st = []"
| "allocated sp eng (c # cs) st =
     (let st1 = snd (bridge (fst c) eng (snd c) st)
      in allocation sp st st1 @ allocated sp eng cs st1)"

definition strictly_increasing :: "c_int list \<Rightarrow> bool" where
  "strictly_increasing hs = sorted_wrt (\<lambda>a b. sint a < sint b) hs"

subsection \<open>The operation table of the specification\<close>

text \<open>
  The argument tags that each operation validates, and the value it gives back when the
  arguments do not have that shape, as the operation table lists them.
\<close>

fun signature :: "bridge_op \<Rightarrow> PhasorValueType list" where
  "signature Op_open = [PHASOR_TYPE_STRING]"
| "signature Op_close = [PHASOR_TYPE_INT]"
| "signature Op_exec = [PHASOR_TYPE_INT, PHASOR_TYPE_STRING]"
| "signature Op_prepare = [PHASOR_TYPE_INT, PHASOR_TYPE_STRING]"
| "signature Op_step = [PHASOR_TYPE_INT]"
| "signature Op_column = [PHASOR_TYPE_INT, PHASOR_TYPE_INT]"
| "signature Op_finalize = [PHASOR_TYPE_INT]"
| "signature Op_free_string = [PHASOR_TYPE_INT]"

fun failure_result :: "bridge_op \<Rightarrow> PhasorValue" where
  "failure_result Op_open = PNull"
| "failure_result Op_close = PBool False"
| "failure_result Op_exec = PBool False"
| "failure_result Op_prepare = PNull"
| "failure_result Op_step = PNull"
| "failure_result Op_column = PNull"
| "failure_result Op_finalize = PBool False"
| "failure_result Op_free_string = PNull"

text \<open>The operations whose first parameter is a handle.\<close>

definition handle_ops :: "bridge_op list" where
  "handle_ops = [Op_close, Op_exec, Op_prepare, Op_step, Op_column, Op_finalize, Op_free_string]"

text \<open>
  The table that an operation creates entries in or removes entries from, if it has one.
\<close>

fun own_space :: "bridge_op \<Rightarrow> space option" where
  "own_space Op_open = Some Connections"
| "own_space Op_close = Some Connections"
| "own_space Op_exec = None"
| "own_space Op_prepare = Some Statements"
| "own_space Op_step = None"
| "own_space Op_column = Some Strings"
| "own_space Op_finalize = Some Statements"
| "own_space Op_free_string = Some Strings"

text \<open>
  The create operations with the results that report success (a handle from
  \<^verbatim>\<open>sqlite_open\<close> and \<^verbatim>\<open>sqlite_prepare\<close>, a string from a text column read by
  \<^verbatim>\<open>sqlite_column\<close>), and the destroy operations with theirs.
\<close>

fun creates :: "bridge_op \<Rightarrow> PhasorValue \<Rightarrow> bool" where
  "creates Op_open r = phasor_is_int r"
| "creates Op_prepare r = phasor_is_int r"
| "creates Op_column r = phasor_is_string r"
| "creates op r = False"


text \<open>
  The handle that a successful create hands out, read off what the call returns.
  \<^verbatim>\<open>sqlite_open\<close> and \<^verbatim>\<open>sqlite_prepare\<close> return their handle to the host as an
  integer. A text column read by \<^verbatim>\<open>sqlite_column\<close> gets its handle from
  \<^verbatim>\<open>store_string\<close> and returns the string stored under it; the handle is the value that
  \<^verbatim>\<open>store_string\<close> returns for that string (it reads only the string counter, which the
  library calls made before it in \<^verbatim>\<open>sqlite_column\<close> do not change).
  \<open>handed_out\<close> lists the handles that the successful creates of a list of calls hand out
  in a space, in order.
\<close>

fun returned_handle :: "PhasorValue \<Rightarrow> state \<Rightarrow> c_int" where
  "returned_handle (PInt v) st = to_c_int v"
| "returned_handle (PString (Some s)) st = fst (store_string s st)"
| "returned_handle r st = 0"

definition handed_out_by :: "space \<Rightarrow> bridge_op \<Rightarrow> PhasorValue \<Rightarrow> state \<Rightarrow> c_int list" where
  "handed_out_by sp op r st =
     (if creates op r \<and> own_space op = Some sp then [returned_handle r st] else [])"

fun handed_out :: "space \<Rightarrow> engine \<Rightarrow> bridge_call list \<Rightarrow> state \<Rightarrow> c_int list" where
  "handed_out sp eng [] st = []"
| "handed_out sp eng (c # cs) st =
     (let (r, st1) = bridge (fst c) eng (snd c) st
      in handed_out_by sp (fst c) r st @ handed_out sp eng cs st1)"

text \<open>
  What the library promises about \<^verbatim>\<open>sqlite3_open\<close>: when it reports
  \<^verbatim>\<open>SQLITE_OK\<close>, the connection it hands back is not null.
\<close>

definition open_contract :: "engine \<Rightarrow> bool" where
  "open_contract eng =
     (\<forall>calls filename. fst (open_result eng calls filename) = SQLITE_OK
        \<longrightarrow> snd (open_result eng calls filename) \<noteq> nullptr)"

subsection \<open>A small engine and the inputs of the examples\<close>

text \<open>
  An engine that opens and compiles everything. Each connection and statement gets a fresh
  address. A statement has one row, which \<^verbatim>\<open>sqlite3_step\<close> produces the first time;
  the row has three columns: the integer \<open>2^32 + 5\<close>, the float \<open>2.5\<close> (as its bit pattern) and the text \<open>x\<close>.
\<close>

definition demo_engine :: engine where
  "demo_engine =
     \<lparr>open_result = (\<lambda>calls filename. (SQLITE_OK, Suc (length calls))),
      exec_result = (\<lambda>calls db sql. (SQLITE_OK, nullptr)),
      prepare_result = (\<lambda>calls db sql. (SQLITE_OK, Suc (length calls))),
      step_result = (\<lambda>calls stmt. if Sqlite3_step stmt \<in> set calls then SQLITE_DONE else SQLITE_ROW),
      column_count_result = (\<lambda>calls stmt. 3),
      column_type_result =
        (\<lambda>calls stmt i. if i = 0 then SQLITE_INTEGER else if i = 1 then SQLITE_FLOAT
                         else SQLITE_TEXT),
      column_int64_value = (\<lambda>calls stmt i. 4294967301),
      column_double_value = (\<lambda>calls stmt i. 4612811918334230528),
      column_text_value = (\<lambda>calls stmt i. ''x'')\<rparr>"

definition open_memory :: bridge_call where
  "open_memory = (Op_open, [PString (Some '':memory:'')])"

definition prepare_select :: bridge_call where
  "prepare_select = (Op_prepare, [PInt 1, PString (Some ''SELECT a, b, c FROM t'')])"

text \<open>The same engine with a statement that fails: \<^verbatim>\<open>sqlite3_step\<close> reports code 1.\<close>

definition broken_engine :: engine where
  "broken_engine = demo_engine\<lparr>step_result := (\<lambda>calls stmt. 1)\<rparr>"

text \<open>
  A connection and a statement on it; the statement stepped onto its row; and the text
  column of that row read.
\<close>

definition prepared :: state where
  "prepared = snd (run demo_engine [open_memory, prepare_select] initial_state)"

definition on_first_row :: state where
  "on_first_row = snd (run demo_engine [open_memory, prepare_select, (Op_step, [PInt 1])] initial_state)"

definition text_read :: state where
  "text_read = snd (sqlite_column demo_engine [PInt 1, PInt 2] on_first_row)"

text \<open>
  Opening and closing over and over: the \<open>k\<close>-th round opens a connection and closes the
  handle \<open>k\<close>.
\<close>

definition open_close_round :: "nat \<Rightarrow> bridge_call list" where
  "open_close_round k = [open_memory, (Op_close, [PInt (of_nat k)])]"

definition open_close_rounds :: "nat \<Rightarrow> nat \<Rightarrow> bridge_call list" where
  "open_close_rounds k n = concat (map open_close_round [k..<k + n])"


section \<open>Properties\<close>

subsection \<open>Auxiliary facts\<close>

lemmas make_defs = phasor_make_null_def phasor_make_bool_def phasor_make_int_def
  phasor_make_float_def phasor_make_string_def

lemmas native_defs = sqlite3_open_def sqlite3_close_def sqlite3_exec_def sqlite3_free_def
  sqlite3_prepare_v2_def sqlite3_step_def sqlite3_column_count_def sqlite3_column_type_def
  sqlite3_column_int_def sqlite3_column_double_def sqlite3_column_text_def sqlite3_finalize_def
  log_call_def

lemmas registry_defs = get_db_def get_stmt_def store_string_def get_string_def free_string_def

lemmas bridge_defs = sqlite_open_def sqlite_close_def sqlite_exec_def sqlite_prepare_def
  sqlite_step_def sqlite_column_def sqlite_finalize_def sqlite_free_string_def

lemmas code_defs = SQLITE_OK_def SQLITE_ROW_def SQLITE_DONE_def SQLITE_INTEGER_def
  SQLITE_FLOAT_def SQLITE_TEXT_def SQLITE_NULL_def nullptr_def

lemmas shape_defs = phasor_is_int_def phasor_is_string_def

lemma map_eq_single: "(map f xs = [a]) = (length xs = 1 \<and> f (xs ! 0) = a)"
  by (cases xs) auto

lemma map_eq_pair: "(map f xs = [a, b]) = (length xs = 2 \<and> f (xs ! 0) = a \<and> f (xs ! 1) = b)"
  by (cases xs; cases "tl xs") auto

lemma to_c_int_to_int64 [simp]: "to_c_int (to_int64 h) = h"
  unfolding to_c_int_def to_int64_def
  by (rule bit_word_eqI) (auto simp: bit_simps)

lemma to_c_int_add_2_32: "to_c_int (v + 2 ^ 32) = to_c_int v"
proof -
  have "uint (ucast (v + 2 ^ 32) :: 32 word) = uint (ucast v :: 32 word)"
  proof -
    have "uint (ucast (v + 2 ^ 32) :: 32 word) = ((uint v + 2 ^ 32) mod 2 ^ 64) mod 2 ^ 32"
      by (simp add: unsigned_ucast_eq take_bit_eq_mod uint_word_ariths)
    also have "\<dots> = (uint v + 2 ^ 32) mod 2 ^ 32"
      by (rule mod_mod_cancel) simp
    also have "\<dots> = uint v mod 2 ^ 32"
      by simp
    also have "\<dots> = uint (ucast v :: 32 word)"
      by (simp add: unsigned_ucast_eq take_bit_eq_mod)
    finally show ?thesis .
  qed
  then show ?thesis
    unfolding to_c_int_def by (simp add: word_uint_eq_iff)
qed

text \<open>The state of the examples, computed.\<close>

lemma on_first_row_eq:
  "on_first_row =
     \<lparr>db_table = [1 \<mapsto> 1], stmt_table = [1 \<mapsto> 2], string_table = Map.empty,
      next_db_handle = 2, next_stmt_handle = 2, next_string_handle = 1,
      native_calls = [Sqlite3_open (Some '':memory:''),
                      Sqlite3_prepare_v2 1 (Some ''SELECT a, b, c FROM t''),
                      Sqlite3_step 2]\<rparr>"
  by (simp add: on_first_row_def open_memory_def prepare_select_def initial_state_def
      demo_engine_def bridge_defs native_defs registry_defs code_defs shape_defs make_defs
      to_c_int_def to_int64_def numeral_2_eq_2)

lemma prepared_eq:
  "prepared =
     \<lparr>db_table = [1 \<mapsto> 1], stmt_table = [1 \<mapsto> 2], string_table = Map.empty,
      next_db_handle = 2, next_stmt_handle = 2, next_string_handle = 1,
      native_calls = [Sqlite3_open (Some '':memory:''),
                      Sqlite3_prepare_v2 1 (Some ''SELECT a, b, c FROM t'')]\<rparr>"
  by (simp add: prepared_def open_memory_def prepare_select_def initial_state_def
      demo_engine_def bridge_defs native_defs registry_defs code_defs shape_defs make_defs
      to_c_int_def to_int64_def numeral_2_eq_2)

lemma text_read_eq:
  "text_read =
     on_first_row\<lparr>string_table := [1 \<mapsto> ''x''], next_string_handle := 2,
                  native_calls := native_calls on_first_row
                    @ [Sqlite3_column_count 2, Sqlite3_column_type 2 2, Sqlite3_column_text 2 2]\<rparr>"
  by (simp add: text_read_def on_first_row_eq demo_engine_def sqlite_column_def native_defs
      registry_defs code_defs shape_defs make_defs to_c_int_def)

text \<open>
  Every operation is registered, under the name of its function in the source.
\<close>

lemma registered_operations:
  "map fst phasor_plugin_entry
     = [''sqlite_open'', ''sqlite_close'', ''sqlite_exec'', ''sqlite_prepare'', ''sqlite_step'',
        ''sqlite_column'', ''sqlite_finalize'', ''sqlite_free_string''] \<and>
   set (map snd phasor_plugin_entry) = UNIV"
proof -
  have "op \<in> set (map snd phasor_plugin_entry)" for op
    by (cases op) (simp_all add: phasor_plugin_entry_def)
  then show ?thesis
    by (auto simp: phasor_plugin_entry_def)
qed

subsection \<open>Argument shapes\<close>

text \<open>
  C2. Whatever the operation, an argument list whose tags are not the ones the operation
  validates (wrong count, or a wrong tag at any position) gives the operation's failure
  value and the state it was called in: no call into the library is logged, and the three
  tables and the three counters are as before.
\<close>

theorem bad_shape_fails_without_effect:
  "map phasor_type argv \<noteq> signature op \<Longrightarrow> bridge op eng argv st = (failure_result op, st)"
  by (cases op)
     (auto simp: map_eq_single map_eq_pair bridge_defs shape_defs make_defs)

theorem bad_shape_fails_without_effect_witness:
  "map phasor_type [PInt 1, PInt 0] \<noteq> signature Op_step \<and>
   bridge Op_step demo_engine [PInt 1, PInt 0] on_first_row = (PNull, on_first_row) \<and>
   map phasor_type [PString (Some ''1'')] \<noteq> signature Op_close \<and>
   bridge Op_close demo_engine [PString (Some ''1'')] on_first_row = (PBool False, on_first_row)"
  using bad_shape_fails_without_effect [of "[PInt 1, PInt 0]" Op_step demo_engine on_first_row]
    bad_shape_fails_without_effect [of "[PString (Some ''1'')]" Op_close demo_engine on_first_row]
  by simp

subsection \<open>Closing a connection\<close>

text \<open>
  C5. \<^verbatim>\<open>sqlite_close\<close>, on any arguments, leaves the statement table and the string
  table (and their counters) as they were, so every statement handle resolves after the
  call to what it resolved to before.
\<close>

theorem close_keeps_statements_and_strings:
  "stmt_table (snd (sqlite_close eng argv st)) = stmt_table st \<and>
   string_table (snd (sqlite_close eng argv st)) = string_table st \<and>
   next_stmt_handle (snd (sqlite_close eng argv st)) = next_stmt_handle st \<and>
   next_string_handle (snd (sqlite_close eng argv st)) = next_string_handle st \<and>
   get_stmt h (snd (sqlite_close eng argv st)) = get_stmt h st"
  by (simp add: sqlite_close_def native_defs get_stmt_def Let_def split: option.splits)

theorem close_keeps_statements_and_strings_witness:
  "fst (sqlite_close demo_engine [PInt 1] on_first_row) = PBool True \<and>
   get_stmt 1 on_first_row = 2 \<and>
   get_stmt 1 (snd (sqlite_close demo_engine [PInt 1] on_first_row)) = 2 \<and>
   stmt_table (snd (sqlite_close demo_engine [PInt 1] on_first_row)) = stmt_table on_first_row"
  using close_keeps_statements_and_strings [of demo_engine "[PInt 1]" on_first_row 1]
  by (simp add: on_first_row_eq sqlite_close_def native_defs get_stmt_def shape_defs make_defs
      to_c_int_def code_defs)

subsection \<open>Stepping a statement\<close>

text \<open>
  C6. \<^verbatim>\<open>sqlite_step\<close> gives null on arguments that are not one integer and on a handle
  that does not resolve to a statement. On a handle that resolves to a statement it asks
  the library once and gives true for \<^verbatim>\<open>SQLITE_ROW\<close>, false for
  \<^verbatim>\<open>SQLITE_DONE\<close> and null for every other return code.
\<close>

theorem step_results:
  "(map phasor_type argv \<noteq> [PHASOR_TYPE_INT] \<longrightarrow> fst (sqlite_step eng argv st) = PNull) \<and>
   (get_stmt (to_c_int v) st = nullptr \<longrightarrow> fst (sqlite_step eng [PInt v] st) = PNull) \<and>
   (get_stmt (to_c_int v) st \<noteq> nullptr \<longrightarrow>
      (let rc = step_result eng (native_calls st) (get_stmt (to_c_int v) st);
           r = fst (sqlite_step eng [PInt v] st)
       in (rc = SQLITE_ROW \<longrightarrow> r = PBool True) \<and>
          (rc = SQLITE_DONE \<longrightarrow> r = PBool False) \<and>
          (rc \<noteq> SQLITE_ROW \<and> rc \<noteq> SQLITE_DONE \<longrightarrow> r = PNull)))"
  by (auto simp: map_eq_single sqlite_step_def shape_defs make_defs native_defs Let_def
      SQLITE_ROW_def SQLITE_DONE_def)

theorem step_results_witness:
  "map phasor_type [PNull] \<noteq> [PHASOR_TYPE_INT] \<and>
   fst (sqlite_step demo_engine [PNull] prepared) = PNull \<and>
   get_stmt (to_c_int 7) prepared = nullptr \<and>
   fst (sqlite_step demo_engine [PInt 7] prepared) = PNull \<and>
   get_stmt (to_c_int 1) prepared \<noteq> nullptr \<and>
   step_result demo_engine (native_calls prepared) (get_stmt (to_c_int 1) prepared)
     = SQLITE_ROW \<and>
   fst (sqlite_step demo_engine [PInt 1] prepared) = PBool True \<and>
   step_result demo_engine (native_calls on_first_row) (get_stmt (to_c_int 1) on_first_row)
     = SQLITE_DONE \<and>
   fst (sqlite_step demo_engine [PInt 1] on_first_row) = PBool False \<and>
   fst (sqlite_step broken_engine [PInt 1] prepared) = PNull"
  using step_results [of "[PNull]" demo_engine prepared 7]
    step_results [of "[PNull]" demo_engine prepared 1]
    step_results [of "[PNull]" demo_engine on_first_row 1]
    step_results [of "[PNull]" broken_engine prepared 1]
  by (simp add: prepared_eq on_first_row_eq get_stmt_def to_c_int_def code_defs demo_engine_def
      broken_engine_def)

subsection \<open>Releasing a string\<close>

text \<open>
  C8. \<^verbatim>\<open>sqlite_free_string\<close> gives null on every argument list and never touches the
  connection table or the statement table. Called with one integer, it leaves the string
  table without an entry at that handle (truncated to \<^verbatim>\<open>int\<close>) and otherwise as it
  was; when there was no entry at the handle the string table is unchanged.
\<close>

theorem free_string_results:
  "fst (sqlite_free_string eng argv st) = PNull \<and>
   db_table (snd (sqlite_free_string eng argv st)) = db_table st \<and>
   stmt_table (snd (sqlite_free_string eng argv st)) = stmt_table st \<and>
   string_table (snd (sqlite_free_string eng [PInt v] st))
     = (string_table st)(to_c_int v := None) \<and>
   (string_table st (to_c_int v) = None \<longrightarrow>
      string_table (snd (sqlite_free_string eng [PInt v] st)) = string_table st)"
  by (auto simp: sqlite_free_string_def free_string_def shape_defs make_defs Let_def)

theorem free_string_results_witness:
  "fst (sqlite_free_string demo_engine [PInt 1] text_read) = PNull \<and>
   string_table text_read = [1 \<mapsto> ''x''] \<and>
   string_table (snd (sqlite_free_string demo_engine [PInt 1] text_read)) = Map.empty \<and>
   string_table text_read (to_c_int 3) = None \<and>
   string_table (snd (sqlite_free_string demo_engine [PInt 3] text_read))
     = string_table text_read \<and>
   db_table (snd (sqlite_free_string demo_engine [PInt 1] text_read)) = db_table text_read \<and>
   stmt_table (snd (sqlite_free_string demo_engine [PInt 1] text_read)) = stmt_table text_read"
  using free_string_results [of demo_engine "[PInt 1]" text_read 1]
    free_string_results [of demo_engine "[PInt 3]" text_read 3]
  by (simp add: text_read_eq on_first_row_eq to_c_int_def)

subsection \<open>Handles are read as 32-bit integers\<close>

lemma to_c_int_add_numeral: "to_c_int (v + 4294967296) = to_c_int v"
  using to_c_int_add_2_32 [of v] by simp

text \<open>
  C10. Each of the seven operations that take a handle converts the 64-bit argument to
  \<^verbatim>\<open>int\<close> before it looks the handle up. So the arguments \<open>v\<close> and \<open>v + 2^32\<close> give
  the same result and the same state, whatever the other arguments are; and what each
  operation does with the argument \<open>v\<close> is decided by the table entry at the low 32 bits of
  \<open>v\<close>: without an entry there it fails and changes nothing, and with a non-null entry
  there it works on that entry (it closes or finalizes it and erases it, or passes it to the
  library). \<^verbatim>\<open>sqlite_free_string\<close> erases the string entry at the low 32 bits of \<open>v\<close>.
\<close>

theorem handle_truncated_before_lookup:
  "(op \<in> set handle_ops \<longrightarrow>
      bridge op eng (PInt (v + 2 ^ 32) # rest) st = bridge op eng (PInt v # rest) st) \<and>
   (db_table st (to_c_int v) = None \<longrightarrow>
      sqlite_close eng [PInt v] st = (PBool False, st) \<and>
      sqlite_exec eng [PInt v, PString sql] st = (PBool False, st) \<and>
      sqlite_prepare eng [PInt v, PString sql] st = (PNull, st)) \<and>
   (stmt_table st (to_c_int v) = None \<longrightarrow>
      sqlite_step eng [PInt v] st = (PNull, st) \<and>
      sqlite_column eng [PInt v, PInt i] st = (PNull, st) \<and>
      sqlite_finalize eng [PInt v] st = (PBool False, st)) \<and>
   (db_table st (to_c_int v) = Some p \<and> p \<noteq> nullptr \<longrightarrow>
      sqlite_close eng [PInt v] st
        = (PBool True,
           st\<lparr>db_table := (db_table st)(to_c_int v := None),
                native_calls := native_calls st @ [Sqlite3_close p]\<rparr>) \<and>
      fst (sqlite_exec eng [PInt v, PString sql] st)
        = PBool (fst (exec_result eng (native_calls st) p sql) = SQLITE_OK) \<and>
      take (Suc (length (native_calls st)))
           (native_calls (snd (sqlite_exec eng [PInt v, PString sql] st)))
        = native_calls st @ [Sqlite3_exec p sql] \<and>
      fst (sqlite_prepare eng [PInt v, PString sql] st)
        = (if fst (prepare_result eng (native_calls st) p sql) = SQLITE_OK
           then PInt (to_int64 (next_stmt_handle st)) else PNull) \<and>
      native_calls (snd (sqlite_prepare eng [PInt v, PString sql] st))
        = native_calls st @ [Sqlite3_prepare_v2 p sql]) \<and>
   (stmt_table st (to_c_int v) = Some p \<and> p \<noteq> nullptr \<longrightarrow>
      fst (sqlite_step eng [PInt v] st)
        = (if step_result eng (native_calls st) p = SQLITE_ROW then PBool True
           else if step_result eng (native_calls st) p = SQLITE_DONE then PBool False
           else PNull) \<and>
      native_calls (snd (sqlite_step eng [PInt v] st)) = native_calls st @ [Sqlite3_step p] \<and>
      take (Suc (length (native_calls st)))
           (native_calls (snd (sqlite_column eng [PInt v, PInt i] st)))
        = native_calls st @ [Sqlite3_column_count p] \<and>
      sqlite_finalize eng [PInt v] st
        = (PBool True,
           st\<lparr>stmt_table := (stmt_table st)(to_c_int v := None),
                native_calls := native_calls st @ [Sqlite3_finalize p]\<rparr>)) \<and>
   sqlite_free_string eng [PInt v] st
     = (PNull, st\<lparr>string_table := (string_table st)(to_c_int v := None)\<rparr>)"
proof -
  have same: "bridge op eng (PInt (v + 2 ^ 32) # rest) st = bridge op eng (PInt v # rest) st"
    if "op \<in> set handle_ops"
    using that by (auto simp: handle_ops_def bridge_defs shape_defs to_c_int_add_numeral)
  have absent_db: "sqlite_close eng [PInt v] st = (PBool False, st) \<and>
      sqlite_exec eng [PInt v, PString sql] st = (PBool False, st) \<and>
      sqlite_prepare eng [PInt v, PString sql] st = (PNull, st)"
    if "db_table st (to_c_int v) = None"
    using that
    by (simp add: sqlite_close_def sqlite_exec_def sqlite_prepare_def get_db_def shape_defs
        make_defs)
  have absent_stmt: "sqlite_step eng [PInt v] st = (PNull, st) \<and>
      sqlite_column eng [PInt v, PInt i] st = (PNull, st) \<and>
      sqlite_finalize eng [PInt v] st = (PBool False, st)"
    if "stmt_table st (to_c_int v) = None"
    using that
    by (simp add: sqlite_step_def sqlite_column_def sqlite_finalize_def get_stmt_def shape_defs
        make_defs)
  have live_db: "sqlite_close eng [PInt v] st
        = (PBool True,
           st\<lparr>db_table := (db_table st)(to_c_int v := None),
                native_calls := native_calls st @ [Sqlite3_close p]\<rparr>) \<and>
      fst (sqlite_exec eng [PInt v, PString sql] st)
        = PBool (fst (exec_result eng (native_calls st) p sql) = SQLITE_OK) \<and>
      take (Suc (length (native_calls st)))
           (native_calls (snd (sqlite_exec eng [PInt v, PString sql] st)))
        = native_calls st @ [Sqlite3_exec p sql] \<and>
      fst (sqlite_prepare eng [PInt v, PString sql] st)
        = (if fst (prepare_result eng (native_calls st) p sql) = SQLITE_OK
           then PInt (to_int64 (next_stmt_handle st)) else PNull) \<and>
      native_calls (snd (sqlite_prepare eng [PInt v, PString sql] st))
        = native_calls st @ [Sqlite3_prepare_v2 p sql]"
    if "db_table st (to_c_int v) = Some p" "p \<noteq> nullptr"
    using that
    by (simp add: sqlite_close_def sqlite_exec_def sqlite_prepare_def get_db_def shape_defs
        make_defs native_defs Let_def split_def)
  have live_stmt: "fst (sqlite_step eng [PInt v] st)
        = (if step_result eng (native_calls st) p = SQLITE_ROW then PBool True
           else if step_result eng (native_calls st) p = SQLITE_DONE then PBool False
           else PNull) \<and>
      native_calls (snd (sqlite_step eng [PInt v] st)) = native_calls st @ [Sqlite3_step p] \<and>
      take (Suc (length (native_calls st)))
           (native_calls (snd (sqlite_column eng [PInt v, PInt i] st)))
        = native_calls st @ [Sqlite3_column_count p] \<and>
      sqlite_finalize eng [PInt v] st
        = (PBool True,
           st\<lparr>stmt_table := (stmt_table st)(to_c_int v := None),
                native_calls := native_calls st @ [Sqlite3_finalize p]\<rparr>)"
    if "stmt_table st (to_c_int v) = Some p" "p \<noteq> nullptr"
    using that
    by (simp add: sqlite_step_def sqlite_column_def sqlite_finalize_def get_stmt_def
        store_string_def get_string_def shape_defs make_defs native_defs Let_def split_def)
  have free: "sqlite_free_string eng [PInt v] st
     = (PNull, st\<lparr>string_table := (string_table st)(to_c_int v := None)\<rparr>)"
    by (simp add: sqlite_free_string_def free_string_def shape_defs make_defs)
  from same absent_db absent_stmt live_db live_stmt free show ?thesis
    by blast
qed

text \<open>
  On a state with connection \<open>1\<close>, statement \<open>1\<close> and string \<open>1\<close>, the argument
  \<open>2^32 + 1\<close> reaches those entries in each of the seven operations.
\<close>

theorem handle_truncated_before_lookup_witness:
  "set handle_ops
     = {Op_close, Op_exec, Op_prepare, Op_step, Op_column, Op_finalize, Op_free_string} \<and>
   to_c_int 4294967297 = 1 \<and>
   db_table prepared 1 = Some 1 \<and> stmt_table prepared 1 = Some 2 \<and>
   string_table text_read 1 = Some ''x'' \<and>
   bridge Op_close demo_engine [PInt 4294967297] prepared
     = bridge Op_close demo_engine [PInt 1] prepared \<and>
   fst (sqlite_close demo_engine [PInt 4294967297] prepared) = PBool True \<and>
   db_table (snd (sqlite_close demo_engine [PInt 4294967297] prepared)) = Map.empty \<and>
   sqlite_exec demo_engine [PInt 4294967297, PString (Some ''BEGIN'')] prepared
     = (PBool True,
        prepared\<lparr>native_calls := native_calls prepared @ [Sqlite3_exec 1 (Some ''BEGIN'')]\<rparr>) \<and>
   fst (sqlite_prepare demo_engine [PInt 4294967297, PString (Some ''SELECT 1'')] prepared)
     = PInt 2 \<and>
   native_calls (snd (sqlite_prepare demo_engine
                        [PInt 4294967297, PString (Some ''SELECT 1'')] prepared))
     = native_calls prepared @ [Sqlite3_prepare_v2 1 (Some ''SELECT 1'')] \<and>
   fst (sqlite_step demo_engine [PInt 4294967297] prepared) = PBool True \<and>
   native_calls (snd (sqlite_step demo_engine [PInt 4294967297] prepared))
     = native_calls prepared @ [Sqlite3_step 2] \<and>
   sqlite_column demo_engine [PInt 4294967297, PInt 1] prepared
     = (PFloat 4612811918334230528,
        prepared\<lparr>native_calls := native_calls prepared
           @ [Sqlite3_column_count 2, Sqlite3_column_type 2 1, Sqlite3_column_double 2 1]\<rparr>) \<and>
   fst (sqlite_finalize demo_engine [PInt 4294967297] prepared) = PBool True \<and>
   stmt_table (snd (sqlite_finalize demo_engine [PInt 4294967297] prepared)) = Map.empty \<and>
   string_table (snd (sqlite_free_string demo_engine [PInt 4294967297] text_read)) = Map.empty \<and>
   sqlite_close demo_engine [PInt 4294967298] prepared = (PBool False, prepared) \<and>
   sqlite_step demo_engine [PInt 4294967298] prepared = (PNull, prepared)"
proof -
  have key: "to_c_int 4294967297 = 1" "to_c_int 4294967298 = 2"
    by (simp_all add: to_c_int_def)
  have index: "to_c_int 1 = 1"
    by (simp add: to_c_int_def)
  note evaluate = prepared_eq demo_engine_def bridge_defs native_defs registry_defs code_defs
    shape_defs make_defs key index to_int64_def
  have ops: "set handle_ops
     = {Op_close, Op_exec, Op_prepare, Op_step, Op_column, Op_finalize, Op_free_string}"
    by (simp add: handle_ops_def)
  have entries: "db_table prepared 1 = Some 1" "stmt_table prepared 1 = Some 2"
    "db_table prepared 2 = None" "stmt_table prepared 2 = None"
    "string_table text_read 1 = Some ''x''"
    by (simp_all add: prepared_eq text_read_eq on_first_row_eq)
  note one = handle_truncated_before_lookup [where op = Op_close and v = 1 and rest = "[]"
      and eng = demo_engine and st = prepared]
  note none = handle_truncated_before_lookup [where v = 4294967298 and eng = demo_engine
      and st = prepared, unfolded key]
  from one ops have same: "bridge Op_close demo_engine [PInt 4294967297] prepared
     = bridge Op_close demo_engine [PInt 1] prepared"
    by simp
  from none entries have absent:
    "sqlite_close demo_engine [PInt 4294967298] prepared = (PBool False, prepared)"
    "sqlite_step demo_engine [PInt 4294967298] prepared = (PNull, prepared)"
    by blast+
  have close: "fst (sqlite_close demo_engine [PInt 4294967297] prepared) = PBool True"
    "db_table (snd (sqlite_close demo_engine [PInt 4294967297] prepared)) = Map.empty"
    by (simp_all add: evaluate)
  have exec: "sqlite_exec demo_engine [PInt 4294967297, PString (Some ''BEGIN'')] prepared
     = (PBool True,
        prepared\<lparr>native_calls := native_calls prepared @ [Sqlite3_exec 1 (Some ''BEGIN'')]\<rparr>)"
    by (simp add: evaluate)
  have prepare: "fst (sqlite_prepare demo_engine
                        [PInt 4294967297, PString (Some ''SELECT 1'')] prepared) = PInt 2"
    "native_calls (snd (sqlite_prepare demo_engine
                        [PInt 4294967297, PString (Some ''SELECT 1'')] prepared))
     = native_calls prepared @ [Sqlite3_prepare_v2 1 (Some ''SELECT 1'')]"
    by (simp_all add: evaluate)
  have step: "fst (sqlite_step demo_engine [PInt 4294967297] prepared) = PBool True"
    "native_calls (snd (sqlite_step demo_engine [PInt 4294967297] prepared))
     = native_calls prepared @ [Sqlite3_step 2]"
    by (simp_all add: evaluate)
  have column: "sqlite_column demo_engine [PInt 4294967297, PInt 1] prepared
     = (PFloat 4612811918334230528,
        prepared\<lparr>native_calls := native_calls prepared
           @ [Sqlite3_column_count 2, Sqlite3_column_type 2 1, Sqlite3_column_double 2 1]\<rparr>)"
    by (simp add: evaluate)
  have finalize: "fst (sqlite_finalize demo_engine [PInt 4294967297] prepared) = PBool True"
    "stmt_table (snd (sqlite_finalize demo_engine [PInt 4294967297] prepared)) = Map.empty"
    by (simp_all add: evaluate)
  have free: "string_table (snd (sqlite_free_string demo_engine [PInt 4294967297] text_read))
     = Map.empty"
    by (simp add: text_read_eq on_first_row_eq sqlite_free_string_def free_string_def shape_defs
        make_defs key)
  from ops key(1) entries(1,2,5) same close exec prepare step column finalize free absent
  show ?thesis
    by blast
qed

subsection \<open>Opening and closing a connection\<close>

text \<open>
  C4. When \<^verbatim>\<open>sqlite_open\<close> has returned a handle, closing that handle right away gives
  true and makes exactly one call into the library, \<^verbatim>\<open>sqlite3_close\<close> on the
  connection; closing it a second time gives false and changes nothing at all, so the
  library is not called again.
\<close>

theorem open_close_close:
  assumes "open_contract eng"
    and "sqlite_open eng argv st = (PInt h, st1)"
  shows "fst (sqlite_close eng [PInt h] st1) = PBool True \<and>
         sqlite_close eng [PInt h] (snd (sqlite_close eng [PInt h] st1))
           = (PBool False, snd (sqlite_close eng [PInt h] st1)) \<and>
         (\<exists>db. db \<noteq> nullptr \<and>
            native_calls (snd (sqlite_close eng [PInt h] st1))
              = native_calls st1 @ [Sqlite3_close db])"
proof -
  obtain rc db where res: "open_result eng (native_calls st) (phasor_to_string (argv ! 0)) = (rc, db)"
    by (cases "open_result eng (native_calls st) (phasor_to_string (argv ! 0))")
  from assms(2) have shape: "length argv = 1" "phasor_is_string (argv ! 0)"
    by (auto simp: sqlite_open_def make_defs split: if_splits)
  from assms(2) shape res have ok: "rc = SQLITE_OK"
    by (auto simp: sqlite_open_def make_defs native_defs Let_def split: if_splits)
  with assms(1) res have db: "db \<noteq> nullptr"
    unfolding open_contract_def by (metis fst_conv snd_conv)
  from assms(2) shape res ok
  have h: "h = to_int64 (next_db_handle st)"
    and st1: "st1 = st\<lparr>native_calls := native_calls st @ [Sqlite3_open (phasor_to_string (argv ! 0))],
                        next_db_handle := next_db_handle st + 1,
                        db_table := (db_table st)(next_db_handle st \<mapsto> db)\<rparr>"
    by (auto simp: sqlite_open_def make_defs native_defs Let_def)
  show ?thesis
    using db by (simp add: h st1 sqlite_close_def shape_defs make_defs native_defs Let_def)
qed

theorem open_close_close_witness:
  "open_contract demo_engine \<and>
   fst (sqlite_open demo_engine [PString (Some '':memory:'')] initial_state) = PInt 1 \<and>
   fst (sqlite_close demo_engine [PInt 1]
          (snd (sqlite_open demo_engine [PString (Some '':memory:'')] initial_state))) = PBool True \<and>
   fst (sqlite_close demo_engine [PInt 1]
          (snd (sqlite_close demo_engine [PInt 1]
             (snd (sqlite_open demo_engine [PString (Some '':memory:'')] initial_state))))) = PBool False"
proof -
  let ?st1 = "initial_state\<lparr>native_calls := [Sqlite3_open (Some '':memory:'')],
                next_db_handle := 2, db_table := [1 \<mapsto> 1]\<rparr>"
  have c: "open_contract demo_engine"
    by (simp add: open_contract_def demo_engine_def code_defs)
  have o: "sqlite_open demo_engine [PString (Some '':memory:'')] initial_state = (PInt 1, ?st1)"
    by (simp add: sqlite_open_def demo_engine_def initial_state_def shape_defs make_defs
        native_defs code_defs to_int64_def)
  show ?thesis
    using open_close_close [OF c o] c by (simp add: o)
qed

subsection \<open>Reading a column\<close>

text \<open>
  C1. For a handle that resolves to a statement and a column index in range, when the
  library reports the column as an integer \<^verbatim>\<open>sqlite_column\<close> gives an integer value.
  The value is read with \<^verbatim>\<open>sqlite3_column_int\<close>, so it is the low 32 bits of the
  column's 64-bit integer, sign-extended: a column that holds \<open>2^32 + 5\<close> is returned as
  \<open>5\<close>.
\<close>

theorem column_integer_low_32_bits:
  assumes "stmt = get_stmt (to_c_int v) st" and "stmt \<noteq> nullptr"
    and "0 \<le> sint (to_c_int i)"
    and "sint (to_c_int i) < sint (column_count_result eng (native_calls st) stmt)"
    and "column_type_result eng (native_calls st @ [Sqlite3_column_count stmt]) stmt (to_c_int i)
           = SQLITE_INTEGER"
  shows "fst (sqlite_column eng [PInt v, PInt i] st)
           = PInt (to_int64 (to_c_int (column_int64_value eng
                (native_calls st @ [Sqlite3_column_count stmt, Sqlite3_column_type stmt (to_c_int i)])
                stmt (to_c_int i))))"
  using assms
  by (simp add: sqlite_column_def shape_defs make_defs native_defs Let_def)

theorem column_integer_low_32_bits_witness:
  "get_stmt (to_c_int 1) on_first_row = 2 \<and>
   column_type_result demo_engine (native_calls on_first_row @ [Sqlite3_column_count 2]) 2 (to_c_int 0)
     = SQLITE_INTEGER \<and>
   column_int64_value demo_engine
     (native_calls on_first_row @ [Sqlite3_column_count 2, Sqlite3_column_type 2 (to_c_int 0)])
     2 (to_c_int 0) = 4294967301 \<and>
   fst (sqlite_column demo_engine [PInt 1, PInt 0] on_first_row) = PInt 5"
  using column_integer_low_32_bits [of 2 1 on_first_row 0 demo_engine]
  by (simp add: on_first_row_eq get_stmt_def to_c_int_def to_int64_def code_defs demo_engine_def)

text \<open>
  C7, as stated, fails: the column index is converted to \<^verbatim>\<open>int\<close> before it is
  compared with the column count. On a statement with three columns the index \<open>2^32\<close> is
  not below the count, and \<^verbatim>\<open>sqlite_column\<close> reads column 0.
\<close>

theorem column_index_counterexample:
  "get_stmt (to_c_int 1) on_first_row \<noteq> nullptr \<and>
   sint (column_count_result demo_engine (native_calls on_first_row)
           (get_stmt (to_c_int 1) on_first_row)) \<le> sint (4294967296 :: int64_t) \<and>
   fst (sqlite_column demo_engine [PInt 1, PInt 4294967296] on_first_row) = PInt 5 \<and>
   native_calls (snd (sqlite_column demo_engine [PInt 1, PInt 4294967296] on_first_row))
     = native_calls on_first_row
         @ [Sqlite3_column_count 2, Sqlite3_column_type 2 0, Sqlite3_column_int 2 0]"
  by (simp add: on_first_row_eq sqlite_column_def shape_defs make_defs native_defs
      get_stmt_def to_c_int_def to_int64_def code_defs demo_engine_def)

lemma column_out_of_range_once:
  assumes "stmt = get_stmt (to_c_int v) st" and "stmt \<noteq> nullptr"
    and "sint (to_c_int i) < 0
         \<or> sint (column_count_result eng (native_calls st) stmt) \<le> sint (to_c_int i)"
  shows "sqlite_column eng [PInt v, PInt i] st
           = (PNull, st\<lparr>native_calls := native_calls st @ [Sqlite3_column_count stmt]\<rparr>)"
  using assms
  by (auto simp: sqlite_column_def shape_defs make_defs native_defs Let_def)

text \<open>
  C7, amended. For a handle that resolves to a statement and a column index whose low 32
  bits, read as a signed integer, are below 0 or not below the column count,
  \<^verbatim>\<open>sqlite_column\<close> gives null, and so does every repetition of the call. All that the
  calls do is ask the library for the column count: the tables and counters stay as they
  are and no column value is read.
\<close>

theorem column_out_of_range_null:
  assumes "stmt = get_stmt (to_c_int v) st" and "stmt \<noteq> nullptr"
    and "\<forall>k<n. sint (to_c_int i) < 0
           \<or> sint (column_count_result eng
                     (native_calls st @ replicate k (Sqlite3_column_count stmt)) stmt)
               \<le> sint (to_c_int i)"
  shows "run eng (replicate n (Op_column, [PInt v, PInt i])) st
           = (replicate n PNull,
              st\<lparr>native_calls := native_calls st @ replicate n (Sqlite3_column_count stmt)\<rparr>)"
  using assms
proof (induction n arbitrary: st)
  case 0
  then show ?case by simp
next
  case (Suc n)
  let ?st1 = "st\<lparr>native_calls := native_calls st @ [Sqlite3_column_count stmt]\<rparr>"
  have "sint (to_c_int i) < 0
      \<or> sint (column_count_result eng (native_calls st) stmt) \<le> sint (to_c_int i)"
    using Suc.prems(3) [rule_format, of 0] by simp
  with Suc.prems(1,2)
  have first: "sqlite_column eng [PInt v, PInt i] st = (PNull, ?st1)"
    by (rule column_out_of_range_once)
  have live: "stmt = get_stmt (to_c_int v) ?st1"
    using Suc.prems(1) by (simp add: get_stmt_def)
  have later: "\<forall>k<n. sint (to_c_int i) < 0
      \<or> sint (column_count_result eng
                (native_calls ?st1 @ replicate k (Sqlite3_column_count stmt)) stmt)
          \<le> sint (to_c_int i)"
  proof (intro allI impI)
    fix k assume "k < n"
    then have "Suc k < Suc n" by simp
    then show "sint (to_c_int i) < 0
      \<or> sint (column_count_result eng
                (native_calls ?st1 @ replicate k (Sqlite3_column_count stmt)) stmt)
          \<le> sint (to_c_int i)"
      using Suc.prems(3) [rule_format, of "Suc k"] by simp
  qed
  have rest: "run eng (replicate n (Op_column, [PInt v, PInt i])) ?st1
      = (replicate n PNull,
         ?st1\<lparr>native_calls := native_calls ?st1 @ replicate n (Sqlite3_column_count stmt)\<rparr>)"
    by (rule Suc.IH [OF live Suc.prems(2) later])
  show ?case
    by (simp add: first rest)
qed

theorem column_out_of_range_null_witness:
  "get_stmt (to_c_int 1) on_first_row = 2 \<and>
   sint (column_count_result demo_engine (native_calls on_first_row) 2) \<le> sint (to_c_int 3) \<and>
   run demo_engine (replicate (Suc (Suc 0)) (Op_column, [PInt 1, PInt 3])) on_first_row
     = ([PNull, PNull],
        on_first_row\<lparr>native_calls := native_calls on_first_row
           @ [Sqlite3_column_count 2, Sqlite3_column_count 2]\<rparr>)"
  using column_out_of_range_null [of 2 1 on_first_row "Suc (Suc 0)" 3 demo_engine]
  by (simp add: on_first_row_eq get_stmt_def to_c_int_def code_defs demo_engine_def)

subsection \<open>Facts about 32-bit handles\<close>

lemma sint_of_nat_small: "n < 2 ^ 31 \<Longrightarrow> sint (of_nat n :: c_int) = int n"
proof -
  assume "n < 2 ^ 31"
  then have "int n < 2 ^ 31" by (metis of_nat_less_iff of_nat_numeral of_nat_power)
  then have "signed_take_bit 31 (int n) = int n"
    by (simp add: signed_take_bit_int_eq_self)
  then show ?thesis
    using signed_of_nat [where ?'b = 32 and ?'a = int, of n] by simp
qed

lemma of_nat_eq_32: "m < 2 ^ 32 \<Longrightarrow> n < 2 ^ 32 \<Longrightarrow> (of_nat m :: c_int) = of_nat n \<longleftrightarrow> m = n"
  by (simp add: word_of_nat_eq_iff take_bit_nat_eq_self)

lemma to_c_int_of_nat: "to_c_int (of_nat n) = of_nat n"
proof -
  have "to_c_int (of_nat n) = (of_nat (unat (of_nat n :: int64_t)) :: c_int)"
    unfolding to_c_int_def by simp
  also have "\<dots> = of_nat (n mod 2 ^ 64)"
    by (simp add: unat_of_nat)
  also have "\<dots> = of_nat n"
  proof -
    have "(n mod 2 ^ 64) mod 2 ^ 32 = n mod 2 ^ 32"
      by (rule mod_mod_cancel) simp
    then show ?thesis
      by (simp add: word_of_nat_eq_iff take_bit_eq_mod)
  qed
  finally show ?thesis .
qed

subsection \<open>One call and the registry\<close>

lemma step_counter:
  "counter sp (snd (bridge op eng argv st)) = counter sp st \<or>
   counter sp (snd (bridge op eng argv st)) = counter sp st + 1"
  by (cases op; cases sp)
     (auto simp: bridge_defs native_defs registry_defs Let_def
        split: prod.splits option.splits)

lemma step_live:
  "live sp (snd (bridge op eng argv st))
     \<subseteq> live sp st \<union> set (allocation sp st (snd (bridge op eng argv st)))"
  by (cases op; cases sp)
     (auto simp: bridge_defs native_defs registry_defs Let_def allocation_def
        split: prod.splits option.splits if_splits)

subsection \<open>Lists of calls\<close>

lemma snd_run_Cons:
  "snd (run eng (c # cs) st) = snd (run eng cs (snd (bridge (fst c) eng (snd c) st)))"
  by (simp add: split_def Let_def)

lemma snd_run_append:
  "snd (run eng (cs1 @ cs2) st) = snd (run eng cs2 (snd (run eng cs1 st)))"
proof (induction cs1 arbitrary: st)
  case Nil
  then show ?case by simp
next
  case (Cons c cs1)
  show ?case
    unfolding append_Cons snd_run_Cons by (rule Cons.IH)
qed

lemma allocated_append:
  "allocated sp eng (cs1 @ cs2) st
     = allocated sp eng cs1 st @ allocated sp eng cs2 (snd (run eng cs1 st))"
proof (induction cs1 arbitrary: st)
  case Nil
  then show ?case by simp
next
  case (Cons c cs1)
  show ?case
    by (simp add: Let_def Cons.IH snd_run_Cons del: run.simps)
qed

lemma allocation_cases:
  "allocation sp st (snd (bridge op eng argv st)) = [] \<and>
     counter sp (snd (bridge op eng argv st)) = counter sp st
   \<or> allocation sp st (snd (bridge op eng argv st)) = [counter sp st] \<and>
     counter sp (snd (bridge op eng argv st)) = counter sp st + 1"
  using step_counter [of sp op eng argv st] by (auto simp: allocation_def)


lemma allocated_nth:
  "k < length (allocated sp eng cs st) \<Longrightarrow> allocated sp eng cs st ! k = counter sp st + of_nat k"
proof (induction cs arbitrary: st k)
  case Nil
  then show ?case by simp
next
  case (Cons c cs)
  let ?st1 = "snd (bridge (fst c) eng (snd c) st)"
  from allocation_cases [of sp st "fst c" eng "snd c"]
  show ?case
  proof (elim disjE conjE)
    assume a: "allocation sp st ?st1 = []" and c: "counter sp ?st1 = counter sp st"
    with Cons.prems have "k < length (allocated sp eng cs ?st1)"
      by (simp add: Let_def)
    from Cons.IH [OF this] a c show ?thesis
      by (simp add: Let_def)
  next
    assume a: "allocation sp st ?st1 = [counter sp st]"
      and c: "counter sp ?st1 = counter sp st + 1"
    show ?thesis
    proof (cases k)
      case 0
      with a show ?thesis by (simp add: Let_def)
    next
      case (Suc j)
      with Cons.prems a have "j < length (allocated sp eng cs ?st1)"
        by (simp add: Let_def)
      from Cons.IH [OF this] a c Suc show ?thesis
        by (simp add: Let_def)
    qed
  qed
qed

lemma live_run:
  "live sp (snd (run eng cs st)) \<subseteq> live sp st \<union> set (allocated sp eng cs st)"
proof (induction cs arbitrary: st)
  case Nil
  then show ?case by simp
next
  case (Cons c cs)
  let ?st1 = "snd (bridge (fst c) eng (snd c) st)"
  have "live sp (snd (run eng cs ?st1)) \<subseteq> live sp ?st1 \<union> set (allocated sp eng cs ?st1)"
    by (rule Cons.IH)
  moreover have "live sp ?st1 \<subseteq> live sp st \<union> set (allocation sp st ?st1)"
    by (rule step_live)
  ultimately show ?case
    unfolding snd_run_Cons by (auto simp: Let_def)
qed

lemma distinct_allocated:
  assumes "length (allocated sp eng cs st) \<le> 2 ^ 32"
  shows "distinct (allocated sp eng cs st)"
proof -
  let ?hs = "allocated sp eng cs st"
  have "?hs ! i \<noteq> ?hs ! j" if "i < j" "j < length ?hs" for i j
  proof -
    from that assms have "i < 2 ^ 32" "j < 2 ^ 32" by simp_all
    then have "(of_nat i :: c_int) \<noteq> of_nat j"
      using that(1) by (simp add: of_nat_eq_32)
    with that show ?thesis
      by (simp add: allocated_nth)
  qed
  then show ?thesis
    by (metis distinct_conv_nth nat_neq_iff)
qed

subsection \<open>Allocation of handles\<close>

text \<open>
  A call reports a successful create exactly when it allocates in its own space, and
  \<^verbatim>\<open>sqlite_open\<close> and \<^verbatim>\<open>sqlite_prepare\<close> return the handle they allocate.
\<close>

lemma create_allocates:
  assumes "bridge op eng argv st = (r, st')" and "creates op r"
  shows "\<exists>sp. own_space op = Some sp \<and> allocation sp st st' = [counter sp st] \<and>
              (op \<noteq> Op_column \<longrightarrow> r = PInt (to_int64 (counter sp st)))"
  using assms
  by (cases op)
     (auto simp: bridge_defs native_defs registry_defs shape_defs make_defs Let_def
        allocation_def split: prod.splits option.splits if_splits)

lemma allocation_creates:
  assumes "bridge op eng argv st = (r, st')" and "allocation sp st st' \<noteq> []"
  shows "creates op r \<and> own_space op = Some sp"
  using assms
  by (cases op; cases sp)
     (auto simp: bridge_defs native_defs registry_defs shape_defs make_defs Let_def
        allocation_def split: prod.splits option.splits if_splits)

subsection \<open>Opening and closing over and over\<close>

lemma open_close_rounds_Suc:
  "open_close_rounds k (Suc n) = open_close_round k @ open_close_rounds (Suc k) n"
proof -
  have "[k..<k + Suc n] = k # [Suc k..<Suc k + n]"
    by (subst upt_rec) simp
  then show ?thesis
    by (simp add: open_close_rounds_def)
qed

lemma open_demo:
  "snd (sqlite_open demo_engine [PString (Some '':memory:'')] st)
     = st\<lparr>native_calls := native_calls st @ [Sqlite3_open (Some '':memory:'')],
          next_db_handle := next_db_handle st + 1,
          db_table := (db_table st)(next_db_handle st \<mapsto> Suc (length (native_calls st)))\<rparr>"
  by (simp add: demo_engine_def sqlite_open_def native_defs shape_defs make_defs code_defs
      Let_def)

lemma open_memory_live:
  "next_db_handle st \<in> live Connections (snd (run demo_engine [open_memory] st))"
  by (simp add: split_def Let_def open_memory_def open_demo)

lemma close_counter:
  "next_db_handle (snd (sqlite_close eng argv st)) = next_db_handle st"
  by (simp add: sqlite_close_def native_defs Let_def split: option.splits prod.splits)

lemma allocated_round:
  "allocated Connections demo_engine (open_close_round k) st = [next_db_handle st]"
  by (simp add: open_close_round_def open_memory_def open_demo close_counter allocation_def
        Let_def)

lemma length_allocated_rounds:
  "length (allocated Connections demo_engine (open_close_rounds k n) st) = n"
proof (induction n arbitrary: k st)
  case 0
  then show ?case by (simp add: open_close_rounds_def)
next
  case (Suc n)
  show ?case
    unfolding open_close_rounds_Suc allocated_append
    by (simp add: allocated_round Suc.IH)
qed

text \<open>
  A round that starts with the counter at a handle that is not in the table leaves the
  table as it was and the counter one further.
\<close>

lemma round_restores:
  assumes "db_table st (of_nat k) = None" and "next_db_handle st = of_nat k"
  shows "db_table (snd (run demo_engine (open_close_round k) st)) = db_table st \<and>
         next_db_handle (snd (run demo_engine (open_close_round k) st)) = of_nat (Suc k)"
proof -
  from assms(1) have restored: "(db_table st)(of_nat k := None) = db_table st"
    by (metis fun_upd_triv)
  have "snd (run demo_engine (open_close_round k) st)
      = snd (sqlite_close demo_engine [PInt (of_nat k)]
               (snd (sqlite_open demo_engine [PString (Some '':memory:'')] st)))"
    by (simp add: open_close_round_def open_memory_def split_def Let_def)
  then show ?thesis
    by (simp add: open_demo assms(2) sqlite_close_def native_defs shape_defs make_defs
        code_defs to_c_int_of_nat Let_def restored)
qed

lemma rounds_restore:
  assumes "\<forall>j. k \<le> j \<and> j < k + n \<longrightarrow> db_table st (of_nat j) = None"
    and "next_db_handle st = of_nat k"
  shows "db_table (snd (run demo_engine (open_close_rounds k n) st)) = db_table st \<and>
         next_db_handle (snd (run demo_engine (open_close_rounds k n) st)) = of_nat (k + n)"
  using assms
proof (induction n arbitrary: k st)
  case 0
  then show ?case by (simp add: open_close_rounds_def)
next
  case (Suc n)
  let ?st1 = "snd (run demo_engine (open_close_round k) st)"
  from Suc.prems(1) have "db_table st (of_nat k) = None" by simp
  from round_restores [OF this Suc.prems(2)]
  have one: "db_table ?st1 = db_table st" "next_db_handle ?st1 = of_nat (Suc k)"
    by blast+
  from Suc.prems(1) one(1)
  have "\<forall>j. Suc k \<le> j \<and> j < Suc k + n \<longrightarrow> db_table ?st1 (of_nat j) = None"
    by simp
  from Suc.IH [OF this one(2)] one(1) show ?case
    unfolding open_close_rounds_Suc snd_run_append by simp
qed

subsection \<open>The handles that calls return\<close>

lemma handed_out_by_allocation:
  assumes "bridge op eng argv st = (r, st')"
  shows "handed_out_by sp op r st = allocation sp st st'"
proof (cases "creates op r")
  case True
  from create_allocates [OF assms True] obtain sp0 where
    own: "own_space op = Some sp0" and a: "allocation sp0 st st' = [counter sp0 st]"
    and int: "op \<noteq> Op_column \<longrightarrow> r = PInt (to_int64 (counter sp0 st))"
    by blast
  have handle: "returned_handle r st = counter sp0 st"
  proof (cases "op = Op_column")
    case False
    with int show ?thesis by simp
  next
    case True
    with assms \<open>creates op r\<close> own show ?thesis
      by (auto simp: sqlite_column_def native_defs registry_defs shape_defs make_defs Let_def
          split: prod.splits option.splits if_splits)
  qed
  show ?thesis
  proof (cases "sp = sp0")
    case True
    with \<open>creates op r\<close> own a handle show ?thesis
      by (simp add: handed_out_by_def)
  next
    case False
    with own have "own_space op \<noteq> Some sp" by simp
    with allocation_creates [OF assms, of sp] have "allocation sp st st' = []"
      by blast
    with \<open>own_space op \<noteq> Some sp\<close> show ?thesis
      by (simp add: handed_out_by_def)
  qed
next
  case False
  with allocation_creates [OF assms, of sp] have "allocation sp st st' = []"
    by blast
  with False show ?thesis
    by (simp add: handed_out_by_def)
qed

text \<open>
  So the handles that the calls return are the values their counters had: the two lists
  agree for every list of calls.
\<close>

lemma handed_out_allocated:
  "handed_out sp eng cs st = allocated sp eng cs st"
proof (induction cs arbitrary: st)
  case Nil
  then show ?case by simp
next
  case (Cons c cs)
  obtain r st1 where step: "bridge (fst c) eng (snd c) st = (r, st1)"
    by (cases "bridge (fst c) eng (snd c) st")
  from handed_out_by_allocation [OF step]
  show ?case
    by (simp add: step Cons.IH)
qed

text \<open>
  The handle that a successful create hands out is a key of its table after the call, and
  the string that a text column read returns is the one stored under its handle.
\<close>

lemma returned_handle_stored:
  assumes "bridge op eng argv st = (r, st')" and "creates op r" and "own_space op = Some sp"
  shows "returned_handle r st \<in> live sp st' \<and>
         (op = Op_column \<longrightarrow> r = PString (string_table st' (returned_handle r st)))"
  using assms
  by (cases op)
     (auto simp: bridge_defs native_defs registry_defs shape_defs make_defs Let_def
        split: prod.splits option.splits if_splits)

text \<open>
  C3, amended. Each counter starts at 1. The handle that a successful create hands out is
  in its table after the call, and a handle is in a table only if a call has handed it
  out. In a run from the initial state in which the successful creates of a space
  hand out fewer than \<open>2^31\<close> handles, the \<open>k\<close>-th handle that they return is \<open>k\<close>, so
  each handle returned is greater than all handles returned before it in that space. In a
  run in which they hand out at most \<open>2^32\<close> handles, a handle that was handed out and is
  no longer in its table at some point of the run is not in the table at the end of the run
  either.
\<close>

theorem handles_count_up:
  "counter sp initial_state = 1 \<and>
   (bridge op eng argv st = (r, st') \<and> creates op r \<and> own_space op = Some sp \<longrightarrow>
      returned_handle r st \<in> live sp st' \<and>
      (op = Op_column \<longrightarrow> r = PString (string_table st' (returned_handle r st)))) \<and>
   live sp (snd (run eng cs initial_state)) \<subseteq> set (handed_out sp eng cs initial_state) \<and>
   (length (handed_out sp eng cs initial_state) < 2 ^ 31 \<longrightarrow>
      (\<forall>k < length (handed_out sp eng cs initial_state).
         sint (handed_out sp eng cs initial_state ! k) = int k + 1) \<and>
      strictly_increasing (handed_out sp eng cs initial_state)) \<and>
   (length (handed_out sp eng cs initial_state) \<le> 2 ^ 32 \<longrightarrow>
      (\<forall>cs1 cs2 h. cs = cs1 @ cs2 \<longrightarrow> h \<in> set (handed_out sp eng cs1 initial_state) \<longrightarrow>
         h \<notin> live sp (snd (run eng cs1 initial_state)) \<longrightarrow>
         h \<notin> live sp (snd (run eng cs initial_state))))"
proof -
  let ?hs = "allocated sp eng cs initial_state"
  have start: "counter sp initial_state = 1"
    by (cases sp) (simp_all add: initial_state_def)
  have "live sp initial_state = {}"
    by (cases sp) (simp_all add: initial_state_def)
  with live_run [of sp eng cs initial_state]
  have known: "live sp (snd (run eng cs initial_state)) \<subseteq> set ?hs"
    by simp
  have nth: "sint (?hs ! k) = int k + 1" if "length ?hs < 2 ^ 31" "k < length ?hs" for k
  proof -
    from that have "Suc k < 2 ^ 31" by simp
    then have "sint (of_nat (Suc k) :: c_int) = int (Suc k)"
      by (rule sint_of_nat_small)
    moreover have "?hs ! k = of_nat (Suc k)"
      using allocated_nth [OF that(2)] start by simp
    ultimately show ?thesis by simp
  qed
  have incr: "strictly_increasing ?hs" if "length ?hs < 2 ^ 31"
    unfolding strictly_increasing_def sorted_wrt_iff_nth_less
    using that by (auto simp: nth)
  have gone: "h \<notin> live sp (snd (run eng cs initial_state))"
    if "length ?hs \<le> 2 ^ 32" "cs = cs1 @ cs2" "h \<in> set (allocated sp eng cs1 initial_state)"
      "h \<notin> live sp (snd (run eng cs1 initial_state))" for cs1 cs2 h
  proof -
    let ?st1 = "snd (run eng cs1 initial_state)"
    have split: "?hs = allocated sp eng cs1 initial_state @ allocated sp eng cs2 ?st1"
      unfolding that(2) by (rule allocated_append)
    from that(1) have "distinct ?hs" by (rule distinct_allocated)
    with split that(3) have "h \<notin> set (allocated sp eng cs2 ?st1)"
      by auto
    moreover have "live sp (snd (run eng cs initial_state))
        \<subseteq> live sp ?st1 \<union> set (allocated sp eng cs2 ?st1)"
      unfolding that(2) snd_run_append by (rule live_run)
    ultimately show ?thesis
      using that(4) by auto
  qed
  from start known nth incr gone returned_handle_stored [of op eng argv st r st' sp]
  show ?thesis
    unfolding handed_out_allocated by blast
qed

theorem handles_count_up_witness:
  "length (handed_out Connections demo_engine
             [open_memory, (Op_close, [PInt 1]), open_memory] initial_state) < 2 ^ 31 \<and>
   fst (run demo_engine [open_memory, (Op_close, [PInt 1]), open_memory] initial_state)
     = [PInt 1, PBool True, PInt 2] \<and>
   handed_out Connections demo_engine
     [open_memory, (Op_close, [PInt 1]), open_memory] initial_state = [1, 2] \<and>
   strictly_increasing [1, 2] \<and>
   1 \<notin> live Connections (snd (run demo_engine [open_memory, (Op_close, [PInt 1])] initial_state)) \<and>
   1 \<notin> live Connections
         (snd (run demo_engine [open_memory, (Op_close, [PInt 1]), open_memory] initial_state))"
proof -
  let ?cs1 = "[open_memory, (Op_close, [PInt 1])]"
  let ?cs = "[open_memory, (Op_close, [PInt 1]), open_memory]"
  note evaluate = open_memory_def initial_state_def demo_engine_def bridge_defs native_defs
    shape_defs make_defs code_defs to_c_int_def to_int64_def handed_out_by_def
  have a: "handed_out Connections demo_engine ?cs initial_state = [1, 2]"
    by (simp add: evaluate)
  have a1: "handed_out Connections demo_engine ?cs1 initial_state = [1]"
    by (simp add: evaluate)
  have rs: "fst (run demo_engine ?cs initial_state) = [PInt 1, PBool True, PInt 2]"
    by (simp add: evaluate)
  have b: "1 \<notin> live Connections (snd (run demo_engine ?cs1 initial_state))"
    by (simp add: evaluate)
  have bound: "length (handed_out Connections demo_engine ?cs initial_state) < 2 ^ 31"
    unfolding a by simp
  then have bound': "length (handed_out Connections demo_engine ?cs initial_state) \<le> 2 ^ 32"
    by simp
  note inst = handles_count_up [where sp = Connections and eng = demo_engine and cs = ?cs]
  from inst bound have "strictly_increasing (handed_out Connections demo_engine ?cs initial_state)"
    by blast
  then have incr: "strictly_increasing [1, 2]"
    unfolding a .
  from inst bound' have "?cs = ?cs1 @ [open_memory] \<longrightarrow>
      1 \<in> set (handed_out Connections demo_engine ?cs1 initial_state) \<longrightarrow>
      1 \<notin> live Connections (snd (run demo_engine ?cs1 initial_state)) \<longrightarrow>
      1 \<notin> live Connections (snd (run demo_engine ?cs initial_state))"
    by blast
  with a1 b have c: "1 \<notin> live Connections (snd (run demo_engine ?cs initial_state))"
    by simp
  from bound rs a incr b c show ?thesis
    by blast
qed

text \<open>
  C3, as stated, fails: the counters are 32-bit. Opening and closing \<open>2^31\<close> times from
  the initial state, the first handle that \<^verbatim>\<open>sqlite_open\<close> returns is \<open>1\<close> and the
  last is \<open>-2^31\<close>, which is not greater than the handles returned before it. After
  \<open>2^32\<close> rounds the handle \<open>1\<close>, returned in the first round and released there, is
  absent from the table, and the next \<^verbatim>\<open>sqlite_open\<close> assigns it again.
\<close>

theorem handles_wrap_counterexample:
  "length (handed_out Connections demo_engine (open_close_rounds 1 (2 ^ 31)) initial_state) = 2 ^ 31 \<and>
   sint (handed_out Connections demo_engine (open_close_rounds 1 (2 ^ 31)) initial_state ! 0) = 1 \<and>
   sint (handed_out Connections demo_engine (open_close_rounds 1 (2 ^ 31)) initial_state
           ! (2 ^ 31 - 1)) = - 2147483648 \<and>
   \<not> strictly_increasing
       (handed_out Connections demo_engine (open_close_rounds 1 (2 ^ 31)) initial_state) \<and>
   1 \<in> set (handed_out Connections demo_engine (open_close_rounds 1 (2 ^ 32)) initial_state) \<and>
   1 \<notin> live Connections (snd (run demo_engine (open_close_rounds 1 (2 ^ 32)) initial_state)) \<and>
   1 \<in> live Connections
         (snd (run demo_engine (open_close_rounds 1 (2 ^ 32) @ [open_memory]) initial_state))"
proof -
  let ?hs = "allocated Connections demo_engine (open_close_rounds 1 (2 ^ 31)) initial_state"
  have len: "length ?hs = 2 ^ 31"
    by (rule length_allocated_rounds)
  have "(0::nat) < length ?hs"
    unfolding len by simp
  from allocated_nth [OF this] have first: "?hs ! 0 = 1"
    by (simp add: initial_state_def)
  have "(2 ^ 31 - 1 :: nat) < length ?hs"
    unfolding len by simp
  from allocated_nth [OF this] have last: "?hs ! (2 ^ 31 - 1) = 2147483648"
    by (simp add: initial_state_def)
  have "\<not> sint (?hs ! 0) < sint (?hs ! (2 ^ 31 - 1))"
    unfolding first last by simp
  moreover have "(0::nat) < 2 ^ 31 - 1" "(2 ^ 31 - 1 :: nat) < length ?hs"
    unfolding len by simp_all
  ultimately have order: "\<not> strictly_increasing ?hs"
    unfolding strictly_increasing_def sorted_wrt_iff_nth_less by blast
  let ?cs = "open_close_rounds 1 (2 ^ 32)"
  let ?gs = "allocated Connections demo_engine ?cs initial_state"
  let ?st = "snd (run demo_engine ?cs initial_state)"
  have "length ?gs = 2 ^ 32"
    by (rule length_allocated_rounds)
  then have pos: "0 < length ?gs"
    by simp
  from allocated_nth [OF pos] have "?gs ! 0 = 1"
    by (simp add: initial_state_def)
  with nth_mem [OF pos] have was: "1 \<in> set ?gs"
    by simp
  have "\<forall>j. 1 \<le> j \<and> j < 1 + 2 ^ 32 \<longrightarrow> db_table initial_state (of_nat j) = None"
    by (simp add: initial_state_def)
  moreover have "next_db_handle initial_state = of_nat 1"
    by (simp add: initial_state_def)
  ultimately have "db_table ?st = db_table initial_state \<and>
      next_db_handle ?st = of_nat (1 + 2 ^ 32)"
    by (rule rounds_restore)
  moreover have "(of_nat (1 + 2 ^ 32) :: c_int) = 1"
    by simp
  ultimately have after: "db_table ?st = Map.empty" "next_db_handle ?st = 1"
    by (simp_all add: initial_state_def)
  from after(1) have released: "1 \<notin> live Connections ?st"
    by simp
  have "next_db_handle ?st \<in> live Connections (snd (run demo_engine [open_memory] ?st))"
    by (rule open_memory_live)
  then have "1 \<in> live Connections (snd (run demo_engine [open_memory] ?st))"
    unfolding after(2) .
  then have again: "1 \<in> live Connections (snd (run demo_engine (?cs @ [open_memory]) initial_state))"
    unfolding snd_run_append .
  from len first last order was released again show ?thesis
    unfolding handed_out_allocated by simp
qed

subsection \<open>Entries created and removed\<close>







subsection \<open>The connection counter after \<open>2^32\<close> allocations\<close>




end
